theory Spec2Isabelle
  imports Main "HOL-Library.Word" "HOL-Library.Multiset"
begin

section \<open>The frame presentation pipeline of \<open>src/platform/qt/DisplayGL.cpp\<close>\<close>

text \<open>
  The file holds two classes. \<open>PainterGL\<close> is the presentation worker: it owns the
  pool of frame buffers (\<open>m_free\<close>), the pending queue (\<open>m_queue\<close>), the pacing timer
  (\<open>m_swapTimer\<close>) and the renderer backend. \<open>DisplayGL\<close> is the lifecycle controller
  that creates the painter, moves it to a draw thread and forwards requests to it.

  The embedding is sequential: every method is a function from the object's state to
  its next state. What a method does to its collaborators (the renderer backend, the
  GL context, the producer's frame handshake) is appended to a trace of events, so that
  the order and the number of these calls can be stated. A method that dereferences a
  null pointer, takes from an empty \<open>QQueue\<close> or copies outside a buffer returns an
  error instead of a state.
\<close>

subsection \<open>Data\<close>

type_synonym addr = nat
type_synonym byte = "8 word"
type_synonym QSize = "int \<times> int"

text \<open>
  A \<open>uint32_t*\<close> is \<open>addr option\<close>: \<open>None\<close> is \<open>nullptr\<close>. A source frame (the
  argument \<open>backing\<close> of \<open>enqueue\<close>) is the list of bytes readable at that pointer.
  A \<open>QSize\<close> is a pair of \<open>int\<close>s, width first.
\<close>

datatype thread = MainThread | PainterThread

text \<open>
  What the painter reads from the \<open>CoreController\<close> it is bound to: the screen
  dimensions, the frame the core last rendered (\<open>drawContext()\<close>), the flag
  \<open>sync.videoFrameWait\<close> and what \<open>mCoreSyncWaitFrameStart\<close> answers.
\<close>

record CoreController =
  screenDimensions :: QSize
  drawContext :: "byte list option"
  videoFrameWait :: bool
  waitFrameStart :: bool

datatype event =
    EvMemcpy addr nat "addr list" "addr option list"
  | EvPostFrame addr "addr list" "addr option list"
  | EvSetDimensions int int
  | EvResized int int
  | EvDrawFrame
  | EvMessagePaint
  | EvClear
  | EvBackendSwap
  | EvSwapBuffers
  | EvMakeCurrent thread
  | EvDoneCurrent
  | EvShaderAttach
  | EvWaitFrameStart
  | EvWaitFrameEnd
  | EvProxyReset
  | EvInterrupt
  | EvResume

text \<open>
  \<open>EvMemcpy d n fr q\<close> is a \<open>memcpy\<close> of \<open>n\<close> bytes into buffer \<open>d\<close>, and
  \<open>EvPostFrame b fr q\<close> is the call \<open>m_backend->postFrame(m_backend, b)\<close>; both record
  the free pool \<open>fr\<close> and the pending queue \<open>q\<close> as they are at the moment of the call.
\<close>

datatype task =
    TStart
  | TDraw
  | TForceDraw
  | TLockAspectRatio bool
  | TLockIntegerScaling bool
  | TFilter bool

datatype error =
    EmptyQueue
  | NullContext
  | NullDestination
  | CopyOutOfBounds

text \<open>
  \<open>EmptyQueue\<close>: \<open>QQueue::dequeue\<close> on an empty queue. \<open>NullContext\<close>: a use of
  \<open>m_context->\<close> while the shared pointer is null. \<open>NullDestination\<close>: \<open>memcpy\<close> to
  \<open>nullptr\<close>. \<open>CopyOutOfBounds\<close>: \<open>memcpy\<close> of more bytes than the source or the
  destination holds.
\<close>

record painter =
  m_active :: bool
  m_started :: bool
  m_frameReady :: bool
  m_needsUnlock :: bool
  m_queue :: "addr option list"
  m_free :: "addr list"
  m_context :: "CoreController option"
  m_size :: QSize
  m_messagePainter :: bool
  m_supportsShaders :: bool
  shader_passes :: bool
  swapTimer_active :: bool
  backend_filter :: bool
  backend_lockAspectRatio :: bool
  backend_lockIntegerScaling :: bool
  gl_valid :: bool
  gl_current :: "thread option"
  gl_thread :: thread
  painter_thread :: thread
  proxy_thread :: thread
  mem :: "addr \<Rightarrow> nat \<Rightarrow> byte"
  allocated :: nat
  posted :: "task list"
  trace :: "event list"

text \<open>
  \<open>mem\<close> is the content of the frame buffers, byte by byte; \<open>allocated\<close> counts the
  buffers obtained from \<open>new\<close> (the next fresh address). \<open>posted\<close> is the event queue
  of the painter's thread: the invocations that have been queued and not run yet.
  \<open>m_messagePainter\<close> and \<open>shader_passes\<close> say whether the pointer is non-null.
\<close>

definition then_do :: "error + 'a \<Rightarrow> ('a \<Rightarrow> error + 'b) \<Rightarrow> error + 'b" where
  "then_do r f = (case r of Inl e \<Rightarrow> Inl e | Inr x \<Rightarrow> f x)"

definition emit :: "event \<Rightarrow> painter \<Rightarrow> painter" where
  "emit e p = p\<lparr>trace := trace p @ [e]\<rparr>"

definition new_events :: "painter \<Rightarrow> painter \<Rightarrow> event list" where
  "new_events p p' = drop (length (trace p)) (trace p')"

subsection \<open>Construction\<close>

text \<open>
  \<open>new uint32_t[1024 * 2048]\<close>: a fresh buffer of \<open>buffer_bytes\<close> bytes.
\<close>

definition buffer_bytes :: nat where
  "buffer_bytes = 1024 * 2048 * 4"

definition new_buffer :: "painter \<Rightarrow> addr \<times> painter" where
  "new_buffer p = (allocated p, p\<lparr>allocated := Suc (allocated p)\<rparr>)"

text \<open>
  The constructor, lines 224 to 288. Whether the context is valid, whether the backend
  supports shaders, the integer-scaling flag the backend starts with and the content of
  fresh memory are not decided in this file; they are arguments. The member
  initialisers are in \<open>DisplayGL.h\<close>: flags start false and pointers null; \<open>m_size\<close>
  is a default \<open>QSize\<close>, whose width and height are \<open>-1\<close>.
  \<open>m_swapTimer\<close> is given an interval of 16 ms and made single-shot; it is not started.
\<close>

definition swapTimer_interval :: nat where
  "swapTimer_interval = 16"

definition PainterGL_pre :: "bool \<Rightarrow> bool \<Rightarrow> bool \<Rightarrow> (addr \<Rightarrow> nat \<Rightarrow> byte) \<Rightarrow> painter" where
  "PainterGL_pre valid shaders lockInt mem0 =
     \<lparr> m_active = False, m_started = False, m_frameReady = False, m_needsUnlock = False,
       m_queue = [], m_free = [], m_context = None, m_size = (- 1, - 1),
       m_messagePainter = False, m_supportsShaders = shaders, shader_passes = False,
       swapTimer_active = False,
       backend_filter = False, backend_lockAspectRatio = False,
       backend_lockIntegerScaling = lockInt,
       gl_valid = valid, gl_current = None, gl_thread = MainThread,
       painter_thread = MainThread, proxy_thread = MainThread,
       mem = mem0, allocated = 0, posted = [],
       trace = [EvMakeCurrent MainThread, EvDoneCurrent] \<rparr>"

definition append_new_buffer :: "painter \<Rightarrow> painter" where
  "append_new_buffer p =
     (case new_buffer p of (a, p1) \<Rightarrow> p1\<lparr>m_free := m_free p1 @ [a]\<rparr>)"

definition PainterGL_new :: "bool \<Rightarrow> bool \<Rightarrow> bool \<Rightarrow> (addr \<Rightarrow> nat \<Rightarrow> byte) \<Rightarrow> painter" where
  "PainterGL_new valid shaders lockInt mem0 =
     fold (\<lambda>i. append_new_buffer) [0 ..< 2] (PainterGL_pre valid shaders lockInt mem0)"

subsection \<open>The frame queue: \<open>enqueue\<close>, \<open>dequeue\<close>, \<open>dequeueAll\<close>\<close>

text \<open>
  All three run between \<open>m_mutex.lock()\<close> and \<open>m_mutex.unlock()\<close>; in the sequential
  model the lock does nothing and is left out.
\<close>

definition copy_bytes :: "byte list \<Rightarrow> nat \<Rightarrow> (nat \<Rightarrow> byte) \<Rightarrow> nat \<Rightarrow> byte" where
  "copy_bytes src n old = (\<lambda>i. if i < n then src ! i else old i)"

text \<open>
  The byte count of \<open>memcpy\<close> is a \<open>size_t\<close> made from an \<open>int\<close>: a negative \<open>int\<close>
  becomes a count larger than any buffer.
\<close>

definition memcpy :: "addr option \<Rightarrow> byte list \<Rightarrow> int \<Rightarrow> painter \<Rightarrow> error + painter" where
  "memcpy dst src n p =
     (case dst of
        None \<Rightarrow> Inl NullDestination
      | Some d \<Rightarrow>
          if n < 0 \<or> int (length src) < n \<or> int buffer_bytes < n then Inl CopyOutOfBounds
          else Inr (emit (EvMemcpy d (nat n) (m_free p) (m_queue p))
                 (p\<lparr>mem := (mem p)(d := copy_bytes src (nat n) (mem p d))\<rparr>)))"

text \<open>
  \<open>take_buffer\<close> is the branch of \<open>enqueue\<close> that finds the destination:
  \<open>m_queue.dequeue()\<close> when \<open>m_free\<close> is empty, \<open>m_free.takeLast()\<close> otherwise.
\<close>

definition take_buffer :: "painter \<Rightarrow> error + (addr option \<times> painter)" where
  "take_buffer p =
     (if m_free p = [] then
        (case m_queue p of
           [] \<Rightarrow> Inl EmptyQueue
         | e # q \<Rightarrow> Inr (e, p\<lparr>m_queue := q\<rparr>))
      else Inr (Some (last (m_free p)), p\<lparr>m_free := butlast (m_free p)\<rparr>))"

text \<open>
  \<open>BYTES_PER_PIXEL\<close> is a macro of a header that is not among the sources; it is the
  argument \<open>bpp\<close>. The product of the three \<open>int\<close>s is taken without wrap-around: a
  product that would overflow is larger than the buffer and is refused by \<open>memcpy\<close>.
\<close>

definition enqueue :: "int \<Rightarrow> byte list option \<Rightarrow> painter \<Rightarrow> error + painter" where
  "enqueue bpp backing p =
     (case backing of
        None \<Rightarrow> Inr (p\<lparr>m_queue := m_queue p @ [None]\<rparr>)
      | Some src \<Rightarrow>
          then_do (take_buffer p) (\<lambda>(buffer, p1).
            case m_context p1 of
              None \<Rightarrow> Inl NullContext
            | Some c \<Rightarrow>
                then_do
                  (memcpy buffer src
                     (fst (screenDimensions c) * snd (screenDimensions c) * bpp) p1)
                  (\<lambda>p2. Inr (p2\<lparr>m_queue := m_queue p2 @ [buffer]\<rparr>))))"

definition postFrame :: "addr \<Rightarrow> painter \<Rightarrow> painter" where
  "postFrame b p = emit (EvPostFrame b (m_free p) (m_queue p)) p"

definition dequeue :: "painter \<Rightarrow> painter" where
  "dequeue p =
     (case m_queue p of
        [] \<Rightarrow> p
      | buffer # q \<Rightarrow>
          (case buffer of
             None \<Rightarrow> p\<lparr>m_queue := q\<rparr>
           | Some b \<Rightarrow>
               (let p1 = postFrame b (p\<lparr>m_queue := q\<rparr>)
                in p1\<lparr>m_free := m_free p1 @ [b]\<rparr>)))"

text \<open>
  The loop of \<open>dequeueAll\<close>, over the three things it changes: the queue, the local
  \<open>buffer\<close> and the free pool.
\<close>

fun dequeueAll_loop :: "addr option list \<Rightarrow> addr option \<Rightarrow> addr list \<Rightarrow> addr option \<times> addr list" where
  "dequeueAll_loop [] buffer fr = (buffer, fr)"
| "dequeueAll_loop (e # q) buffer fr =
     dequeueAll_loop q e (case e of None \<Rightarrow> fr | Some b \<Rightarrow> fr @ [b])"

definition dequeueAll :: "painter \<Rightarrow> painter" where
  "dequeueAll p =
     (case dequeueAll_loop (m_queue p) None (m_free p) of
        (buffer, fr) \<Rightarrow>
          (let p1 = p\<lparr>m_queue := [], m_free := fr\<rparr>
           in case buffer of None \<Rightarrow> p1 | Some b \<Rightarrow> postFrame b p1))"

subsection \<open>The worker: \<open>PainterGL\<close>\<close>

definition makeCurrent :: "thread \<Rightarrow> painter \<Rightarrow> painter" where
  "makeCurrent t p = emit (EvMakeCurrent t) (p\<lparr>gl_current := Some t\<rparr>)"

definition doneCurrent :: "painter \<Rightarrow> painter" where
  "doneCurrent p = emit EvDoneCurrent (p\<lparr>gl_current := None\<rparr>)"

definition post :: "task \<Rightarrow> painter \<Rightarrow> painter" where
  "post t p = p\<lparr>posted := posted p @ [t]\<rparr>"

text \<open>
  \<open>m_backend->swap\<close> is the lambda installed by the constructor (lines 262 to 267): it
  starts the pacing timer unless the timer is already running. The painter calls it on
  the thread that owns the timer, so \<open>invokeMethod(&m_swapTimer, "start")\<close> is a direct
  call.
\<close>

definition backend_swap :: "painter \<Rightarrow> painter" where
  "backend_swap p =
     (let p1 = emit EvBackendSwap p
      in if \<not> swapTimer_active p1 then p1\<lparr>swapTimer_active := True\<rparr> else p1)"

definition resizeContext :: "painter \<Rightarrow> painter" where
  "resizeContext p =
     (case m_context p of
        None \<Rightarrow> p
      | Some c \<Rightarrow> emit (EvSetDimensions (fst (screenDimensions c)) (snd (screenDimensions c))) p)"

definition setContext :: "CoreController option \<Rightarrow> painter \<Rightarrow> painter" where
  "setContext context p = resizeContext (p\<lparr>m_context := context\<rparr>)"

definition setMessagePainter :: "bool \<Rightarrow> painter \<Rightarrow> painter" where
  "setMessagePainter messagePainter p = p\<lparr>m_messagePainter := messagePainter\<rparr>"

text \<open>
  \<open>performDraw\<close> passes \<open>m_size\<close> scaled by the surface's device pixel ratio (a float)
  to \<open>resized\<close>; the event keeps \<open>m_size\<close>.
\<close>

definition performDraw :: "painter \<Rightarrow> painter" where
  "performDraw p =
     (let p1 = emit (EvResized (fst (m_size p)) (snd (m_size p))) p;
          p2 = emit EvDrawFrame p1;
          p3 = (if m_messagePainter p2 then emit EvMessagePaint p2 else p2)
      in p3\<lparr>m_frameReady := True\<rparr>)"

definition forceDraw :: "painter \<Rightarrow> painter" where
  "forceDraw p = backend_swap (performDraw p)"

definition resize :: "QSize \<Rightarrow> painter \<Rightarrow> painter" where
  "resize sz p =
     (let p1 = p\<lparr>m_size := sz\<rparr>
      in if m_started p1 \<and> \<not> m_active p1 then forceDraw p1 else p1)"

definition lockAspectRatio :: "bool \<Rightarrow> painter \<Rightarrow> painter" where
  "lockAspectRatio lock p =
     (let p1 = p\<lparr>backend_lockAspectRatio := lock\<rparr> in resize (m_size p1) p1)"

definition lockIntegerScaling :: "bool \<Rightarrow> painter \<Rightarrow> painter" where
  "lockIntegerScaling lock p =
     (let p1 = p\<lparr>backend_lockIntegerScaling := lock\<rparr> in resize (m_size p1) p1)"

definition filter_painter :: "bool \<Rightarrow> painter \<Rightarrow> painter" where
  "filter_painter f p =
     (let p1 = p\<lparr>backend_filter := f\<rparr>
      in if m_started p1 \<and> \<not> m_active p1 then forceDraw p1 else p1)"

text \<open>
  \<open>start\<close> runs on the painter's thread (it is connected to \<open>QThread::started\<close>).
\<close>

definition start :: "painter \<Rightarrow> painter" where
  "start p =
     (let p1 = makeCurrent (painter_thread p) p;
          p2 = (if m_supportsShaders p1 \<and> shader_passes p1 then emit EvShaderAttach p1 else p1)
      in p2\<lparr>m_active := True, m_started := True\<rparr>)"

text \<open>
  \<open>draw\<close>, lines 371 to 392. \<open>QTimer::singleShot(0, this, &PainterGL::draw)\<close> queues
  another \<open>draw\<close> on the painter's thread.
\<close>

definition draw :: "painter \<Rightarrow> error + painter" where
  "draw p =
     (if m_queue p = [] then Inr p
      else if m_needsUnlock p then Inr (post TDraw p)
      else
        (case m_context p of
           None \<Rightarrow> Inl NullContext
         | Some c \<Rightarrow>
             (let p1 = emit EvWaitFrameStart p
              in if waitFrameStart c \<or> m_queue p1 \<noteq> [] then
                   (let p2 = forceDraw (dequeue p1)
                    in if videoFrameWait c then Inr (p2\<lparr>m_needsUnlock := True\<rparr>)
                       else Inr (emit EvWaitFrameEnd p2))
                 else Inr (emit EvWaitFrameEnd p1))))"

definition pause :: "painter \<Rightarrow> painter" where
  "pause p = p\<lparr>m_active := False\<rparr>"

definition unpause :: "painter \<Rightarrow> painter" where
  "unpause p = p\<lparr>m_active := True\<rparr>"

text \<open>
  \<open>swap\<close>, lines 441 to 462, the slot connected to the timer's \<open>timeout\<close>.
  \<open>invokeMethod(this, "draw", Qt::QueuedConnection)\<close> queues a \<open>draw\<close>;
  \<open>m_swapTimer.start()\<close> rearms the timer.
\<close>

definition release_handshake :: "painter \<Rightarrow> error + painter" where
  "release_handshake p =
     (if m_needsUnlock p then
        (case m_context p of
           None \<Rightarrow> Inl NullContext
         | Some c \<Rightarrow> Inr ((emit EvWaitFrameEnd p)\<lparr>m_needsUnlock := False\<rparr>))
      else Inr p)"

definition swap :: "painter \<Rightarrow> error + painter" where
  "swap p =
     (if \<not> gl_valid p then Inr p
      else
        (let p1 = (if m_frameReady p
                   then (makeCurrent (painter_thread p) (emit EvSwapBuffers p))\<lparr>m_frameReady := False\<rparr>
                   else p)
         in then_do (release_handshake p1) (\<lambda>p2.
              if m_queue p2 \<noteq> [] then Inr (post TDraw p2)
              else Inr (p2\<lparr>swapTimer_active := True\<rparr>))))"

text \<open>
  The timer is single-shot: when it expires it is no longer active, and \<open>swap\<close> runs.
\<close>

definition swapTimer_timeout :: "painter \<Rightarrow> error + painter" where
  "swapTimer_timeout p =
     (if swapTimer_active p then swap (p\<lparr>swapTimer_active := False\<rparr>) else Inr p)"

text \<open>
  \<open>stop\<close>, lines 401 to 419. \<open>m_surface\<close> is the window of the widget, which lives on
  the main thread, so \<open>m_surface->thread()\<close> is \<open>MainThread\<close>. \<open>m_videoProxy\<close> is the
  address of a member of \<open>DisplayGL\<close> and is never null.
\<close>

definition stop :: "painter \<Rightarrow> error + painter" where
  "stop p =
     (let p1 = p\<lparr>m_active := False, m_started := False\<rparr>;
          p2 = dequeueAll p1;
          p3 = backend_swap (emit EvClear p2)
      in then_do
           (if swapTimer_active p3
            then then_do (swap p3) (\<lambda>q. Inr (q\<lparr>swapTimer_active := False\<rparr>))
            else Inr p3)
           (\<lambda>p4.
              (let p5 = doneCurrent (emit EvProxyReset p4);
                   p6 = p5\<lparr>gl_thread := MainThread\<rparr>;
                   p7 = p6\<lparr>m_context := None\<rparr>;
                   p8 = p7\<lparr>painter_thread := gl_thread p7\<rparr>
               in Inr (p8\<lparr>proxy_thread := gl_thread p8\<rparr>))))"

text \<open>
  The event loop of the painter's thread. A blocking invocation
  (\<open>Qt::BlockingQueuedConnection\<close>) is queued behind the invocations already posted, so
  these run first, each once; what they post in turn stays queued.
\<close>

definition run_task :: "task \<Rightarrow> painter \<Rightarrow> error + painter" where
  "run_task t p =
     (case t of
        TStart \<Rightarrow> Inr (start p)
      | TDraw \<Rightarrow> draw p
      | TForceDraw \<Rightarrow> Inr (forceDraw p)
      | TLockAspectRatio lock \<Rightarrow> Inr (lockAspectRatio lock p)
      | TLockIntegerScaling lock \<Rightarrow> Inr (lockIntegerScaling lock p)
      | TFilter f \<Rightarrow> Inr (filter_painter f p))"

fun run_tasks :: "task list \<Rightarrow> painter \<Rightarrow> error + painter" where
  "run_tasks [] p = Inr p"
| "run_tasks (t # ts) p = then_do (run_task t p) (run_tasks ts)"

definition run_posted :: "painter \<Rightarrow> error + painter" where
  "run_posted p = run_tasks (posted p) (p\<lparr>posted := []\<rparr>)"

definition invoke_blocking :: "(painter \<Rightarrow> error + painter) \<Rightarrow> painter \<Rightarrow> error + painter" where
  "invoke_blocking f p = then_do (run_posted p) f"

text \<open>
  Sequences of calls on a painter, for statements about every reachable state.
\<close>

datatype painter_op =
    OpEnqueue "byte list option"
  | OpDequeue
  | OpDequeueAll
  | OpDraw
  | OpForceDraw
  | OpTimeout
  | OpStart
  | OpStop
  | OpPause
  | OpUnpause
  | OpSetContext "CoreController option"
  | OpResize QSize
  | OpLockAspectRatio bool
  | OpLockIntegerScaling bool
  | OpFilter bool
  | OpRunPosted

definition apply_op :: "int \<Rightarrow> painter_op \<Rightarrow> painter \<Rightarrow> error + painter" where
  "apply_op bpp op p =
     (case op of
        OpEnqueue backing \<Rightarrow> enqueue bpp backing p
      | OpDequeue \<Rightarrow> Inr (dequeue p)
      | OpDequeueAll \<Rightarrow> Inr (dequeueAll p)
      | OpDraw \<Rightarrow> draw p
      | OpForceDraw \<Rightarrow> Inr (forceDraw p)
      | OpTimeout \<Rightarrow> swapTimer_timeout p
      | OpStart \<Rightarrow> Inr (start p)
      | OpStop \<Rightarrow> stop p
      | OpPause \<Rightarrow> Inr (pause p)
      | OpUnpause \<Rightarrow> Inr (unpause p)
      | OpSetContext c \<Rightarrow> Inr (setContext c p)
      | OpResize sz \<Rightarrow> Inr (resize sz p)
      | OpLockAspectRatio lock \<Rightarrow> Inr (lockAspectRatio lock p)
      | OpLockIntegerScaling lock \<Rightarrow> Inr (lockIntegerScaling lock p)
      | OpFilter f \<Rightarrow> Inr (filter_painter f p)
      | OpRunPosted \<Rightarrow> run_posted p)"

fun run :: "int \<Rightarrow> painter_op list \<Rightarrow> painter \<Rightarrow> error + painter" where
  "run bpp [] p = Inr p"
| "run bpp (op # ops) p = then_do (apply_op bpp op p) (run bpp ops)"

subsection \<open>The lifecycle controller: \<open>DisplayGL\<close>\<close>

text \<open>
  \<open>m_drawThread\<close> says whether the pointer is non-null. \<open>d_context\<close> is the member
  \<open>DisplayGL::m_context\<close>. The three flags and \<open>widget_size\<close> are the state of the base
  class \<open>Display\<close> and of the widget.
\<close>

record DisplayGL =
  m_drawThread :: bool
  m_isDrawing :: bool
  d_context :: "CoreController option"
  m_painter :: painter
  aspectRatioLocked :: bool
  integerScalingLocked :: bool
  filtered :: bool
  widget_size :: QSize

definition DisplayGL_lockAspectRatio :: "bool \<Rightarrow> DisplayGL \<Rightarrow> DisplayGL" where
  "DisplayGL_lockAspectRatio lock d =
     (let d1 = d\<lparr>aspectRatioLocked := lock\<rparr>
      in if m_drawThread d1 then d1\<lparr>m_painter := post (TLockAspectRatio lock) (m_painter d1)\<rparr>
         else d1)"

definition DisplayGL_lockIntegerScaling :: "bool \<Rightarrow> DisplayGL \<Rightarrow> DisplayGL" where
  "DisplayGL_lockIntegerScaling lock d =
     (let d1 = d\<lparr>integerScalingLocked := lock\<rparr>
      in if m_drawThread d1 then d1\<lparr>m_painter := post (TLockIntegerScaling lock) (m_painter d1)\<rparr>
         else d1)"

definition DisplayGL_filter :: "bool \<Rightarrow> DisplayGL \<Rightarrow> DisplayGL" where
  "DisplayGL_filter f d =
     (let d1 = d\<lparr>filtered := f\<rparr>
      in if m_drawThread d1 then d1\<lparr>m_painter := post (TFilter f) (m_painter d1)\<rparr>
         else d1)"

definition DisplayGL_forceDraw :: "DisplayGL \<Rightarrow> DisplayGL" where
  "DisplayGL_forceDraw d =
     (if m_drawThread d then d\<lparr>m_painter := post TForceDraw (m_painter d)\<rparr> else d)"

definition resizePainter :: "DisplayGL \<Rightarrow> error + DisplayGL" where
  "resizePainter d =
     (if m_drawThread d then
        then_do (invoke_blocking (\<lambda>p. Inr (resize (widget_size d) p)) (m_painter d))
          (\<lambda>p. Inr (d\<lparr>m_painter := p\<rparr>))
      else Inr d)"

text \<open>
  \<open>CoreController::Interrupter interrupter(m_context)\<close> pauses the producer until
  the end of the enclosing block: \<open>EvInterrupt\<close> at the declaration, \<open>EvResume\<close> at
  the closing brace.
\<close>

definition DisplayGL_resizeContext :: "DisplayGL \<Rightarrow> error + DisplayGL" where
  "DisplayGL_resizeContext d =
     (if m_drawThread d then
        (let d1 = d\<lparr>m_isDrawing := False\<rparr>
         in then_do (invoke_blocking (\<lambda>p. Inr (resizeContext p)) (emit EvInterrupt (m_painter d1)))
              (\<lambda>p. Inr (d1\<lparr>m_painter := emit EvResume p\<rparr>)))
      else Inr d)"

definition startDrawing :: "CoreController option \<Rightarrow> DisplayGL \<Rightarrow> error + DisplayGL" where
  "startDrawing controller d =
     (if m_drawThread d then Inr d
      else
        (let d1 = d\<lparr>m_isDrawing := True\<rparr>;
             d2 = d1\<lparr>m_painter := setMessagePainter True (setContext controller (m_painter d1))\<rparr>;
             d3 = d2\<lparr>d_context := controller\<rparr>;
             d4 = d3\<lparr>m_painter := resize (widget_size d3) (m_painter d3)\<rparr>;
             d5 = d4\<lparr>m_drawThread := True\<rparr>;
             d6 = d5\<lparr>m_painter :=
                     (doneCurrent (m_painter d5))
                       \<lparr>gl_thread := PainterThread, painter_thread := PainterThread,
                        proxy_thread := PainterThread\<rparr>\<rparr>;
             d7 = d6\<lparr>m_painter := post TStart (m_painter d6)\<rparr>;
             d8 = DisplayGL_lockAspectRatio (aspectRatioLocked d7) d7;
             d9 = DisplayGL_lockIntegerScaling (integerScalingLocked d8) d8;
             d10 = DisplayGL_filter (filtered d9) d9
         in resizePainter d10))"

definition stopDrawing :: "DisplayGL \<Rightarrow> error + DisplayGL" where
  "stopDrawing d =
     then_do
       (if m_drawThread d then
          (let d1 = d\<lparr>m_isDrawing := False\<rparr>
           in then_do (invoke_blocking stop (emit EvInterrupt (m_painter d1)))
                (\<lambda>p. Inr (d1\<lparr>m_drawThread := False,
                              m_painter := emit EvResume (makeCurrent MainThread p)\<rparr>)))
        else Inr d)
       (\<lambda>d2. Inr (d2\<lparr>d_context := None\<rparr>))"

definition pauseDrawing :: "DisplayGL \<Rightarrow> error + DisplayGL" where
  "pauseDrawing d =
     (if m_drawThread d then
        (let d1 = d\<lparr>m_isDrawing := False\<rparr>
         in then_do (invoke_blocking (\<lambda>p. Inr (pause p)) (emit EvInterrupt (m_painter d1)))
              (\<lambda>p. Inr (d1\<lparr>m_painter := emit EvResume p\<rparr>)))
      else Inr d)"

definition unpauseDrawing :: "DisplayGL \<Rightarrow> error + DisplayGL" where
  "unpauseDrawing d =
     (if m_drawThread d then
        (let d1 = d\<lparr>m_isDrawing := True\<rparr>
         in then_do (invoke_blocking (\<lambda>p. Inr (unpause p)) (emit EvInterrupt (m_painter d1)))
              (\<lambda>p. Inr (d1\<lparr>m_painter := emit EvResume p\<rparr>)))
      else Inr d)"

text \<open>
  \<open>framePosted\<close>: \<open>enqueue\<close> is called directly, on the caller's thread; \<open>draw\<close> is
  queued on the painter's thread.
\<close>

definition framePosted :: "int \<Rightarrow> DisplayGL \<Rightarrow> error + DisplayGL" where
  "framePosted bpp d =
     (if m_drawThread d then
        (case d_context d of
           None \<Rightarrow> Inl NullContext
         | Some c \<Rightarrow>
             then_do (enqueue bpp (drawContext c) (m_painter d))
               (\<lambda>p. Inr (d\<lparr>m_painter := post TDraw p\<rparr>)))
      else Inr d)"

text \<open>
  The constructor of \<open>DisplayGL\<close> creates the painter; no draw thread exists yet.
\<close>

definition DisplayGL_new :: "painter \<Rightarrow> bool \<Rightarrow> bool \<Rightarrow> bool \<Rightarrow> QSize \<Rightarrow> DisplayGL" where
  "DisplayGL_new p aspect integer filt sz =
     \<lparr> m_drawThread = False, m_isDrawing = False, d_context = None, m_painter = p,
       aspectRatioLocked = aspect, integerScalingLocked = integer, filtered = filt,
       widget_size = sz \<rparr>"

subsection \<open>Notions used in the statements\<close>

text \<open>The buffers held by the pending queue: its non-null entries, in order.\<close>

fun buffers_of :: "addr option list \<Rightarrow> addr list" where
  "buffers_of [] = []"
| "buffers_of (None # q) = buffers_of q"
| "buffers_of (Some b # q) = b # buffers_of q"

text \<open>The buffers submitted to the backend by a list of events, in order.\<close>

fun posted_frames :: "event list \<Rightarrow> addr list" where
  "posted_frames [] = []"
| "posted_frames (EvPostFrame b fr q # es) = b # posted_frames es"
| "posted_frames (e # es) = posted_frames es"

text \<open>
  What the specification says \<open>drainAll\<close> submits: only the last non-null buffer of
  the queue.
\<close>

definition spec_drainAll_submits :: "addr option list \<Rightarrow> addr list" where
  "spec_drainAll_submits q = (if buffers_of q = [] then [] else [last (buffers_of q)])"

text \<open>
  What the specification says of a buffer that is submitted or written: at that
  moment it is neither in the free pool nor in the pending queue.
\<close>

fun spec_single_owner :: "event \<Rightarrow> bool" where
  "spec_single_owner (EvPostFrame b fr q) = (b \<notin> set fr \<and> Some b \<notin> set q)"
| "spec_single_owner (EvMemcpy d n fr q) = (d \<notin> set fr \<and> Some d \<notin> set q)"
| "spec_single_owner e = True"

text \<open>
  Who holds a buffer at the moment of a copy or a submission: the free pool, the
  pending queue, and in flight the one buffer that is being written or is being
  handed to the backend. A buffer held twice is listed twice.
\<close>

fun holders_at :: "event \<Rightarrow> addr list option" where
  "holders_at (EvPostFrame b fr q) = Some (fr @ buffers_of q @ [b])"
| "holders_at (EvMemcpy d n fr q) = Some (fr @ buffers_of q @ [d])"
| "holders_at e = None"

text \<open>
  What the specification says of these moments: each of the two buffers is in
  exactly one of the free pool, the pending queue and in-flight.
\<close>

definition spec_exactly_one_holder :: "event \<Rightarrow> bool" where
  "spec_exactly_one_holder e =
     (case holders_at e of None \<Rightarrow> True | Some hs \<Rightarrow> mset hs = {#0, 1#})"

definition live_buffers :: "painter \<Rightarrow> addr list" where
  "live_buffers p = m_free p @ buffers_of (m_queue p)"

text \<open>A controller, a frame and a painter bound to the controller, for examples.\<close>

definition frame8 :: "byte list" where
  "frame8 = [1, 2, 3, 4, 5, 6, 7, 8]"

definition ctl0 :: CoreController where
  "ctl0 = \<lparr> screenDimensions = (2, 1), drawContext = Some frame8,
            videoFrameWait = False, waitFrameStart = True \<rparr>"

definition painter0 :: painter where
  "painter0 = setContext (Some ctl0) (PainterGL_new True False False (\<lambda>a i. 0))"

text \<open>
  States reached by short call sequences, named for the examples. \<open>projr\<close> takes the
  state out of a result; each example states that the sequence does return one.
\<close>

definition one_frame_state :: painter where
  "one_frame_state =
     projr (run 4 [OpSetContext (Some ctl0), OpEnqueue (Some frame8)]
              (PainterGL_new True False False (\<lambda>a i. 0)))"

definition two_frame_state :: painter where
  "two_frame_state = projr (enqueue 4 (Some frame8) one_frame_state)"

definition trailing_null_state :: painter where
  "trailing_null_state = projr (run 4 [OpEnqueue (Some frame8), OpEnqueue None] painter0)"

definition recycled_state :: painter where
  "recycled_state =
     projr (run 4 [OpSetContext (Some ctl0), OpEnqueue (Some frame8), OpEnqueue (Some frame8),
                   OpEnqueue (Some frame8), OpDequeue]
              (PainterGL_new True False False (\<lambda>a i. 0)))"

definition null_front_state :: painter where
  "null_front_state =
     projr (run 4 [OpEnqueue (Some frame8), OpEnqueue None, OpEnqueue (Some frame8),
                   OpEnqueue (Some frame8)] painter0)"

definition stopped_fresh :: painter where
  "stopped_fresh = projr (stop painter0)"

definition paused_state :: painter where
  "paused_state = projr (run 4 [OpStart, OpPause, OpEnqueue (Some frame8)] painter0)"


definition stopped_state :: painter where
  "stopped_state = projr (stop paused_state)"

definition ready_state :: painter where
  "ready_state = forceDraw painter0"

definition invalid_gl_state :: painter where
  "invalid_gl_state = forceDraw (PainterGL_new False False False (\<lambda>a i. 0))"

definition display0 :: DisplayGL where
  "display0 =
     DisplayGL_new (PainterGL_new True False False (\<lambda>a i. 0)) True False False (4, 3)"

definition running_display :: DisplayGL where
  "running_display = projr (startDrawing (Some ctl0) display0)"

definition stopped_display :: DisplayGL where
  "stopped_display = projr (stopDrawing running_display)"

text \<open>
  What holds of the code at a copy or a submission. At a copy the destination is in
  flight and the free pool and the queue hold the other buffer. At a submission either
  the same holds, or the queue is empty and the free pool already holds both buffers,
  the submitted one last: that is the submission of \<open>dequeueAll\<close>.
\<close>

fun event_ok :: "event \<Rightarrow> bool" where
  "event_ok (EvMemcpy d n fr q) = (mset (fr @ buffers_of q @ [d]) = {#0, 1#})"
| "event_ok (EvPostFrame b fr q) =
     (mset (fr @ buffers_of q @ [b]) = {#0, 1#} \<or>
      (q = [] \<and> fr \<noteq> [] \<and> last fr = b \<and> mset fr = {#0, 1#}))"
| "event_ok e = True"

text \<open>
  The invariant of the buffer pool: the two buffers made by the constructor are each
  held once by the free pool or the pending queue, none has been allocated since, and
  every copy and every submission so far was as \<open>event_ok\<close> says.
\<close>

definition pool_inv :: "painter \<Rightarrow> bool" where
  "pool_inv p = (mset (live_buffers p) = {#0, 1#} \<and> allocated p = 2 \<and> list_all event_ok (trace p))"

section \<open>Properties\<close>

subsection \<open>Evaluating the examples\<close>

lemma PainterGL_new_eq:
  "PainterGL_new v s l m0 = (PainterGL_pre v s l m0)\<lparr>m_free := [0, 1], allocated := 2\<rparr>"
  by (simp add: PainterGL_new_def PainterGL_pre_def append_new_buffer_def new_buffer_def
      upt_rec numeral_2_eq_2)

lemmas example_defs = painter0_def PainterGL_new_eq PainterGL_pre_def setContext_def
  resizeContext_def ctl0_def frame8_def

lemmas queue_defs = emit_def enqueue_def take_buffer_def memcpy_def then_do_def
  buffer_bytes_def new_events_def dequeue_def dequeueAll_def postFrame_def copy_bytes_def

lemmas painter_defs = apply_op_def start_def pause_def unpause_def makeCurrent_def
  doneCurrent_def draw_def forceDraw_def performDraw_def backend_swap_def post_def swap_def
  release_handshake_def swapTimer_timeout_def stop_def Let_def emit_def

lemma run_one_frame:
  "run 4 [OpSetContext (Some ctl0), OpEnqueue (Some frame8)]
     (PainterGL_new True False False (\<lambda>a i. 0)) = Inr one_frame_state"
  by (simp add: one_frame_state_def example_defs apply_op_def queue_defs)

lemma one_frame_fields:
  "m_queue one_frame_state = [Some 1]" "m_free one_frame_state = [0]"
  "m_context one_frame_state = Some ctl0" "\<not> m_needsUnlock one_frame_state"
  "trace one_frame_state =
     [EvMakeCurrent MainThread, EvDoneCurrent, EvSetDimensions 2 1, EvMemcpy 1 8 [0] []]"
  by (simp_all add: one_frame_state_def example_defs apply_op_def queue_defs)

lemma enqueue_two_frames:
  "enqueue 4 (Some frame8) one_frame_state = Inr two_frame_state"
  by (simp add: two_frame_state_def one_frame_fields queue_defs ctl0_def frame8_def)

lemma two_frame_fields:
  "m_queue two_frame_state = [Some 1, Some 0]" "m_free two_frame_state = []"
  "trace two_frame_state = trace one_frame_state @ [EvMemcpy 0 8 [] [Some 1]]"
  "allocated two_frame_state = allocated one_frame_state"
  "mem two_frame_state = (mem one_frame_state)(0 := copy_bytes frame8 8 (mem one_frame_state 0))"
  by (simp_all add: two_frame_state_def one_frame_fields queue_defs ctl0_def frame8_def)

subsection \<open>The queue operations\<close>

lemma buffers_of_append: "buffers_of (q @ r) = buffers_of q @ buffers_of r"
  by (induction q rule: buffers_of.induct) simp_all

lemma Some_in_queue_iff: "Some b \<in> set q \<longleftrightarrow> b \<in> set (buffers_of q)"
  by (induction q rule: buffers_of.induct) auto

lemma last_buffers_of:
  "q \<noteq> [] \<Longrightarrow> last q = Some b \<Longrightarrow> buffers_of q \<noteq> [] \<and> last (buffers_of q) = b"
  by (induction q rule: buffers_of.induct) (auto split: if_splits)

lemma last_notin_butlast: "distinct xs \<Longrightarrow> xs \<noteq> [] \<Longrightarrow> last xs \<notin> set (butlast xs)"
  by (induction xs) (auto dest: in_set_butlastD)

text \<open>
  The loop of \<open>dequeueAll\<close> leaves in \<open>buffer\<close> the last entry it took, null or not,
  and has appended the non-null entries to the free pool in queue order.
\<close>

lemma dequeueAll_loop_eq:
  "dequeueAll_loop q b fr = (if q = [] then b else last q, fr @ buffers_of q)"
proof (induction q arbitrary: b fr)
  case Nil
  show ?case by simp
next
  case (Cons e q)
  show ?case by (cases e) (simp_all add: Cons.IH)
qed

lemma new_events_dequeue:
  "new_events p (dequeue p) =
     (case m_queue p of Some b # q \<Rightarrow> [EvPostFrame b (m_free p) q] | _ \<Rightarrow> [])"
  by (simp add: new_events_def dequeue_def postFrame_def emit_def
      split: list.split option.split)

lemma new_events_dequeueAll:
  "new_events p (dequeueAll p) =
     (case (if m_queue p = [] then None else last (m_queue p)) of
        None \<Rightarrow> []
      | Some b \<Rightarrow> [EvPostFrame b (m_free p @ buffers_of (m_queue p)) []])"
  by (simp add: dequeueAll_def dequeueAll_loop_eq postFrame_def emit_def new_events_def
      split: option.split)

lemma new_events_enqueue:
  "enqueue bpp backing p = Inr p' \<Longrightarrow> EvMemcpy d n fr q \<in> set (new_events p p') \<Longrightarrow>
     (m_free p \<noteq> [] \<and> d = last (m_free p) \<and> fr = butlast (m_free p) \<and> q = m_queue p) \<or>
     (m_free p = [] \<and> fr = [] \<and> m_queue p = Some d # q)"
  by (cases backing)
     (auto simp: enqueue_def take_buffer_def then_do_def memcpy_def emit_def new_events_def
       split: list.splits option.splits if_splits)

lemma take_buffer_cases:
  "take_buffer p =
     (if m_free p \<noteq> [] then Inr (Some (last (m_free p)), p\<lparr>m_free := butlast (m_free p)\<rparr>)
      else if m_queue p = [] then Inl EmptyQueue
      else Inr (hd (m_queue p), p\<lparr>m_queue := tl (m_queue p)\<rparr>))"
  by (simp add: take_buffer_def split: list.split)

lemma dequeue_null_front: "dequeue (p\<lparr>m_queue := None # q\<rparr>) = p\<lparr>m_queue := q\<rparr>"
  by (simp add: dequeue_def)

lemma m_queue_dequeue: "m_queue (dequeue p) = tl (m_queue p)"
  by (simp add: dequeue_def postFrame_def emit_def Let_def split: list.split option.split)

lemma m_queue_dequeue_funpow: "m_queue ((dequeue ^^ n) p) = drop n (m_queue p)"
proof (induction n)
  case 0
  show ?case by simp
next
  case (Suc n)
  show ?case by (simp add: m_queue_dequeue Suc.IH drop_Suc tl_drop)
qed



subsection \<open>What the other methods leave alone\<close>

lemma live_buffers_frame [simp]:
  "live_buffers (emit e p) = live_buffers p"
  "live_buffers (post t p) = live_buffers p"
  "live_buffers (pause p) = live_buffers p"
  "live_buffers (forceDraw p) = live_buffers p"
  "live_buffers (p\<lparr>m_needsUnlock := u\<rparr>) = live_buffers p"
  by (simp_all add: live_buffers_def emit_def post_def pause_def forceDraw_def performDraw_def
      backend_swap_def Let_def)

lemma allocated_frame [simp]:
  "allocated (emit e p) = allocated p"
  "allocated (post t p) = allocated p"
  "allocated (pause p) = allocated p"
  "allocated (forceDraw p) = allocated p"
  "allocated (dequeue p) = allocated p"
  by (simp_all add: emit_def post_def pause_def forceDraw_def performDraw_def
      backend_swap_def Let_def dequeue_def postFrame_def split: list.split option.split)

lemma m_active_frame [simp]:
  "m_active (emit e p) = m_active p"
  "m_active (post t p) = m_active p"
  "m_active (forceDraw p) = m_active p"
  "m_active (dequeue p) = m_active p"
  by (simp_all add: emit_def post_def forceDraw_def performDraw_def
      backend_swap_def Let_def dequeue_def postFrame_def split: list.split option.split)







lemma swap_fields:
  assumes "swap p = Inr q"
  shows "m_queue q = m_queue p" "m_free q = m_free p" "gl_valid q = gl_valid p"
    "gl_valid p \<longrightarrow> \<not> m_frameReady q \<and> \<not> m_needsUnlock q"
    "m_active q = m_active p" "m_started q = m_started p"
  using assms
  by (auto simp: swap_def release_handshake_def then_do_def Let_def makeCurrent_def emit_def
      post_def split: if_splits option.splits)

text \<open>
  In \<open>stop\<close> the timer is always active after \<open>m_backend->swap\<close>, so \<open>swap\<close> always
  runs.
\<close>

lemma stop_unfold:
  "stop p =
     then_do (swap (backend_swap (emit EvClear
                (dequeueAll (p\<lparr>m_active := False, m_started := False\<rparr>)))))
       (\<lambda>q. Inr ((doneCurrent (emit EvProxyReset (q\<lparr>swapTimer_active := False\<rparr>)))
                   \<lparr>gl_thread := MainThread, m_context := None,
                    painter_thread := MainThread, proxy_thread := MainThread\<rparr>))"
  by (simp add: stop_def Let_def backend_swap_def then_do_def emit_def doneCurrent_def
      split: sum.split)

lemma stop_result:
  assumes "stop p = Inr p1"
  shows "\<not> m_active p1" "\<not> m_started p1" "m_queue p1 = []" "\<not> swapTimer_active p1"
    "m_context p1 = None" "gl_current p1 = None" "gl_thread p1 = MainThread"
    "painter_thread p1 = MainThread" "proxy_thread p1 = MainThread"
    "gl_valid p1 \<longrightarrow> \<not> m_frameReady p1 \<and> \<not> m_needsUnlock p1"
proof -
  define p3 where
    "p3 = backend_swap (emit EvClear (dequeueAll (p\<lparr>m_active := False, m_started := False\<rparr>)))"
  from assms obtain q where q: "swap p3 = Inr q"
    and p1: "p1 = (doneCurrent (emit EvProxyReset (q\<lparr>swapTimer_active := False\<rparr>)))
                   \<lparr>gl_thread := MainThread, m_context := None,
                    painter_thread := MainThread, proxy_thread := MainThread\<rparr>"
    unfolding stop_unfold p3_def [symmetric] by (auto simp: then_do_def split: sum.splits)
  have p3: "m_queue p3 = []" "\<not> m_active p3" "\<not> m_started p3"
    by (simp_all add: p3_def backend_swap_def emit_def Let_def dequeueAll_def dequeueAll_loop_eq
        postFrame_def split: option.split)
  note f = swap_fields [OF q]
  show "\<not> m_active p1" "\<not> m_started p1" "m_queue p1 = []" "\<not> swapTimer_active p1"
    "m_context p1 = None" "gl_current p1 = None" "gl_thread p1 = MainThread"
    "painter_thread p1 = MainThread" "proxy_thread p1 = MainThread"
    "gl_valid p1 \<longrightarrow> \<not> m_frameReady p1 \<and> \<not> m_needsUnlock p1"
    using f p3 by (simp_all add: p1 doneCurrent_def emit_def)
qed

lemma stop_when_stopped:
  assumes "\<not> m_active p" "\<not> m_started p" "m_queue p = []" "\<not> swapTimer_active p"
    "m_context p = None" "gl_current p = None" "gl_thread p = MainThread"
    "painter_thread p = MainThread" "proxy_thread p = MainThread"
    "gl_valid p \<longrightarrow> \<not> m_frameReady p \<and> \<not> m_needsUnlock p"
  shows "stop p =
    Inr (p\<lparr>trace := trace p @ [EvClear, EvBackendSwap, EvProxyReset, EvDoneCurrent]\<rparr>)"
  using assms
  by (simp add: stop_def Let_def then_do_def backend_swap_def emit_def doneCurrent_def
      swap_def release_handshake_def makeCurrent_def post_def dequeueAll_def)

subsection \<open>The invariant of the buffer pool\<close>

lemma two_distinct: "mset xs = {#0, 1::nat#} \<Longrightarrow> distinct xs"
  using mset_eq_imp_distinct_iff [of xs "[0, 1]"] by simp

lemma pool_inv_distinct: "pool_inv p \<Longrightarrow> distinct (m_free p @ buffers_of (m_queue p))"
  by (simp add: pool_inv_def live_buffers_def two_distinct del: distinct_append)

lemma pool_inv_same:
  "m_free p' = m_free p \<Longrightarrow> m_queue p' = m_queue p \<Longrightarrow> allocated p' = allocated p \<Longrightarrow>
   trace p' = trace p \<Longrightarrow> pool_inv p' = pool_inv p"
  by (simp add: pool_inv_def live_buffers_def)

lemma event_ok_no_holders: "holders_at e = None \<Longrightarrow> event_ok e"
  by (cases e) simp_all

lemma pool_inv_emit:
  "holders_at e = None \<Longrightarrow> pool_inv (emit e p) = pool_inv p"
  by (simp add: pool_inv_def live_buffers_def emit_def event_ok_no_holders)

lemma pool_inv_new: "pool_inv (PainterGL_new v s l m0)"
  by (simp add: PainterGL_new_eq PainterGL_pre_def pool_inv_def live_buffers_def)

lemma pool_inv_dequeue: "pool_inv p \<Longrightarrow> pool_inv (dequeue p)"
proof (cases "m_queue p")
  case Nil
  assume "pool_inv p"
  with Nil show ?thesis by (simp add: dequeue_def)
next
  case (Cons e q)
  assume inv: "pool_inv p"
  show ?thesis
  proof (cases e)
    case None
    with Cons inv show ?thesis
      by (simp add: dequeue_def pool_inv_def live_buffers_def)
  next
    case (Some b)
    with Cons inv show ?thesis
      by (simp add: dequeue_def pool_inv_def live_buffers_def postFrame_def emit_def)
  qed
qed

lemma pool_inv_dequeueAll: "pool_inv p \<Longrightarrow> pool_inv (dequeueAll p)"
proof -
  assume inv: "pool_inv p"
  show ?thesis
  proof (cases "m_queue p = [] \<or> last (m_queue p) = None")
    case True
    with inv show ?thesis
      by (auto simp: dequeueAll_def dequeueAll_loop_eq pool_inv_def live_buffers_def)
  next
    case False
    then obtain b where b: "m_queue p \<noteq> []" "last (m_queue p) = Some b" by auto
    from last_buffers_of [OF b]
    have "buffers_of (m_queue p) \<noteq> []" "last (buffers_of (m_queue p)) = b" by simp_all
    with b inv show ?thesis
      by (simp add: dequeueAll_def dequeueAll_loop_eq pool_inv_def live_buffers_def
          postFrame_def emit_def)
  qed
qed

lemma pool_inv_enqueue: "pool_inv p \<Longrightarrow> enqueue bpp backing p = Inr p' \<Longrightarrow> pool_inv p'"
proof (cases backing)
  case None
  assume "pool_inv p" "enqueue bpp backing p = Inr p'"
  with None show ?thesis
    by (auto simp: enqueue_def pool_inv_def live_buffers_def buffers_of_append)
next
  case (Some src)
  assume inv: "pool_inv p" and run: "enqueue bpp backing p = Inr p'"
  show ?thesis
  proof (cases "m_free p = []")
    case True
    with run Some obtain b q where q: "m_queue p = Some b # q"
      by (auto simp: enqueue_def take_buffer_def then_do_def memcpy_def
          split: list.splits option.splits if_splits)
    with run Some True inv show ?thesis
      by (auto simp: enqueue_def take_buffer_def then_do_def memcpy_def emit_def
          pool_inv_def live_buffers_def buffers_of_append
          split: option.splits if_splits)
  next
    case False
    then have fr: "m_free p = butlast (m_free p) @ [last (m_free p)]" by simp
    from inv have "mset (butlast (m_free p) @ [last (m_free p)] @ buffers_of (m_queue p)) = {#0, 1#}"
      using fr by (metis append.assoc pool_inv_def live_buffers_def)
    with run Some False inv show ?thesis
      by (auto simp: enqueue_def take_buffer_def then_do_def memcpy_def emit_def
          pool_inv_def live_buffers_def buffers_of_append
          split: option.splits if_splits)
  qed
qed

lemmas pool_unfold = pool_inv_def live_buffers_def emit_def Let_def

lemma pool_inv_post [simp]: "pool_inv (post t p) = pool_inv p"
  by (simp add: post_def pool_unfold)

lemma pool_inv_makeCurrent [simp]: "pool_inv (makeCurrent t p) = pool_inv p"
  by (simp add: makeCurrent_def pool_unfold)

lemma pool_inv_doneCurrent [simp]: "pool_inv (doneCurrent p) = pool_inv p"
  by (simp add: doneCurrent_def pool_unfold)

lemma pool_inv_backend_swap [simp]: "pool_inv (backend_swap p) = pool_inv p"
  by (simp add: backend_swap_def pool_unfold)

lemma pool_inv_performDraw [simp]: "pool_inv (performDraw p) = pool_inv p"
  by (simp add: performDraw_def pool_unfold)

lemma pool_inv_forceDraw [simp]: "pool_inv (forceDraw p) = pool_inv p"
  by (simp add: forceDraw_def)

lemma pool_inv_resize [simp]: "pool_inv (resize sz p) = pool_inv p"
  by (simp add: resize_def Let_def) (simp add: pool_unfold)

lemma pool_inv_lockAspectRatio [simp]: "pool_inv (lockAspectRatio lock p) = pool_inv p"
  by (simp add: lockAspectRatio_def Let_def) (simp add: pool_unfold)

lemma pool_inv_lockIntegerScaling [simp]: "pool_inv (lockIntegerScaling lock p) = pool_inv p"
  by (simp add: lockIntegerScaling_def Let_def) (simp add: pool_unfold)

lemma pool_inv_filter [simp]: "pool_inv (filter_painter f p) = pool_inv p"
  by (simp add: filter_painter_def Let_def) (simp add: pool_unfold)

lemma pool_inv_start [simp]: "pool_inv (start p) = pool_inv p"
  by (simp add: start_def Let_def) (simp add: pool_unfold makeCurrent_def)

lemma pool_inv_pause [simp]: "pool_inv (pause p) = pool_inv p"
  by (simp add: pause_def pool_unfold)

lemma pool_inv_unpause [simp]: "pool_inv (unpause p) = pool_inv p"
  by (simp add: unpause_def pool_unfold)

lemma pool_inv_resizeContext [simp]: "pool_inv (resizeContext p) = pool_inv p"
  by (simp add: resizeContext_def pool_unfold split: option.split)

lemma pool_inv_setContext [simp]: "pool_inv (setContext c p) = pool_inv p"
  by (simp add: setContext_def) (simp add: pool_unfold)

lemma pool_inv_draw: "pool_inv p \<Longrightarrow> draw p = Inr p' \<Longrightarrow> pool_inv p'"
proof -
  assume inv: "pool_inv p" and run: "draw p = Inr p'"
  have a: "pool_inv (emit EvWaitFrameStart p)"
    using inv by (simp add: pool_inv_emit)
  have b: "pool_inv (forceDraw (dequeue (emit EvWaitFrameStart p)))"
    using pool_inv_dequeue [OF a] by simp
  have c: "pool_inv ((forceDraw (dequeue (emit EvWaitFrameStart p)))\<lparr>m_needsUnlock := True\<rparr>)"
    using b by (simp add: pool_inv_def live_buffers_def)
  have d: "pool_inv (emit EvWaitFrameEnd (forceDraw (dequeue (emit EvWaitFrameStart p))))"
    using b by (simp add: pool_inv_emit)
  have e: "pool_inv (emit EvWaitFrameEnd (emit EvWaitFrameStart p))"
    using a by (simp add: pool_inv_emit)
  from run inv a c d e show ?thesis
    by (auto simp: draw_def Let_def split: if_splits option.splits)
qed

lemma pool_inv_swap: "pool_inv p \<Longrightarrow> swap p = Inr p' \<Longrightarrow> pool_inv p'"
  by (auto simp: swap_def release_handshake_def then_do_def Let_def pool_unfold makeCurrent_def
      post_def split: if_splits option.splits)

lemma pool_inv_timeout: "pool_inv p \<Longrightarrow> swapTimer_timeout p = Inr p' \<Longrightarrow> pool_inv p'"
proof -
  assume inv: "pool_inv p" and run: "swapTimer_timeout p = Inr p'"
  have "pool_inv (p\<lparr>swapTimer_active := False\<rparr>)"
    using inv by (simp add: pool_inv_def live_buffers_def)
  with inv run show ?thesis
    by (auto simp: swapTimer_timeout_def split: if_splits dest: pool_inv_swap)
qed

lemma pool_inv_stop: "pool_inv p \<Longrightarrow> stop p = Inr p' \<Longrightarrow> pool_inv p'"
proof -
  assume inv: "pool_inv p" and run: "stop p = Inr p'"
  define p3 where "p3 = backend_swap (emit EvClear (dequeueAll (p\<lparr>m_active := False, m_started := False\<rparr>)))"
  have "pool_inv (p\<lparr>m_active := False, m_started := False\<rparr>)"
    using inv by (simp add: pool_inv_def live_buffers_def)
  then have p3: "pool_inv p3"
    unfolding p3_def by (simp add: pool_inv_emit pool_inv_dequeueAll)
  obtain p4 where p4: "pool_inv p4"
    and fin: "p' = (doneCurrent (emit EvProxyReset p4))\<lparr>gl_thread := MainThread, m_context := None,
                 painter_thread := MainThread, proxy_thread := MainThread\<rparr>"
  proof (cases "swapTimer_active p3")
    case False
    with run show ?thesis
      by (intro that [of p3]) (auto simp: stop_def Let_def then_do_def p3 p3_def [symmetric])
  next
    case True
    with run obtain q where q: "swap p3 = Inr q"
      by (auto simp: stop_def Let_def then_do_def p3_def [symmetric] split: sum.splits)
    from pool_inv_swap [OF p3 q] have "pool_inv (q\<lparr>swapTimer_active := False\<rparr>)"
      by (simp add: pool_inv_def live_buffers_def)
    with run True q show ?thesis
      by (intro that [of "q\<lparr>swapTimer_active := False\<rparr>"])
         (auto simp: stop_def Let_def then_do_def p3_def [symmetric])
  qed
  from p4 show ?thesis
    unfolding fin by (simp add: pool_unfold doneCurrent_def)
qed

lemma pool_inv_run_task: "pool_inv p \<Longrightarrow> run_task t p = Inr p' \<Longrightarrow> pool_inv p'"
  by (cases t) (auto simp: run_task_def dest: pool_inv_draw)

lemma pool_inv_run_tasks: "pool_inv p \<Longrightarrow> run_tasks ts p = Inr p' \<Longrightarrow> pool_inv p'"
proof (induction ts arbitrary: p)
  case Nil
  then show ?case by simp
next
  case (Cons t ts)
  then show ?case
    by (auto simp: then_do_def split: sum.splits dest: pool_inv_run_task)
qed

lemma pool_inv_run_posted: "pool_inv p \<Longrightarrow> run_posted p = Inr p' \<Longrightarrow> pool_inv p'"
proof -
  assume inv: "pool_inv p" and run: "run_posted p = Inr p'"
  have "pool_inv (p\<lparr>posted := []\<rparr>)"
    using inv by (simp add: pool_inv_def live_buffers_def)
  with run show ?thesis
    unfolding run_posted_def by (rule pool_inv_run_tasks [rotated])
qed

lemma pool_inv_apply_op: "pool_inv p \<Longrightarrow> apply_op bpp op p = Inr p' \<Longrightarrow> pool_inv p'"
  by (cases op)
     (auto simp: apply_op_def
       dest: pool_inv_enqueue pool_inv_draw pool_inv_timeout pool_inv_stop pool_inv_run_posted
       intro: pool_inv_dequeue pool_inv_dequeueAll)

lemma pool_inv_run: "pool_inv p \<Longrightarrow> run bpp ops p = Inr p' \<Longrightarrow> pool_inv p'"
proof (induction ops arbitrary: p)
  case Nil
  then show ?case by simp
next
  case (Cons op ops)
  then show ?case
    by (auto simp: then_do_def split: sum.splits dest: pool_inv_apply_op)
qed

subsection \<open>Who holds a buffer when it is submitted or written\<close>

lemma dequeue_event_owner:
  "distinct (m_free p @ buffers_of (m_queue p)) \<Longrightarrow>
     list_all spec_single_owner (new_events p (dequeue p))"
  by (auto simp: new_events_dequeue Some_in_queue_iff split: list.splits option.splits)

lemma dequeueAll_event_owner:
  assumes d: "distinct (m_free p @ buffers_of (m_queue p))"
    and ev: "EvPostFrame b fr q \<in> set (new_events p (dequeueAll p))"
  shows "q = [] \<and> fr \<noteq> [] \<and> last fr = b \<and> b \<notin> set (butlast fr)"
proof -
  from ev have ne: "m_queue p \<noteq> []" and la: "last (m_queue p) = Some b"
    and fr: "fr = m_free p @ buffers_of (m_queue p)" and q: "q = []"
    by (auto simp: new_events_dequeueAll split: if_splits option.splits)
  from last_buffers_of [OF ne la]
  have l: "buffers_of (m_queue p) \<noteq> []" "last (buffers_of (m_queue p)) = b"
    by simp_all
  then have lf: "fr \<noteq> []" "last fr = b" unfolding fr by simp_all
  from d have "distinct fr" unfolding fr .
  from last_notin_butlast [OF this lf(1)] lf have "b \<notin> set (butlast fr)" by simp
  with lf q show ?thesis by simp
qed

lemma enqueue_event_owner:
  assumes d: "distinct (m_free p @ buffers_of (m_queue p))"
    and e: "enqueue bpp backing p = Inr p'"
  shows "list_all spec_single_owner (new_events p p')"
proof -
  have "spec_single_owner ev" if "ev \<in> set (new_events p p')" for ev
  proof (cases ev)
    case (EvMemcpy d' n fr q)
    from new_events_enqueue [OF e that [unfolded EvMemcpy]]
    consider "m_free p \<noteq> []" "d' = last (m_free p)" "fr = butlast (m_free p)" "q = m_queue p"
      | "m_free p = []" "fr = []" "m_queue p = Some d' # q" by blast
    then show ?thesis
    proof cases
      case 1
      from d have "distinct (m_free p)" by simp
      from last_notin_butlast [OF this 1(1)] have a: "d' \<notin> set fr" using 1 by simp
      from 1 have "d' \<in> set (m_free p)" by simp
      with d have "d' \<notin> set (buffers_of (m_queue p))" by auto
      with a 1 show ?thesis unfolding EvMemcpy by (simp add: Some_in_queue_iff)
    next
      case 2
      with d show ?thesis unfolding EvMemcpy by (simp add: Some_in_queue_iff)
    qed
  next
    case (EvPostFrame b fr q)
    with e that show ?thesis
      by (cases backing)
         (auto simp: enqueue_def take_buffer_def then_do_def memcpy_def emit_def new_events_def
           split: list.splits option.splits if_splits)
  qed simp_all
  then show ?thesis by (simp add: list_all_iff)
qed

subsection \<open>The claims\<close>

text \<open>
  C1, as stated, fails. After \<open>enqueue(frame8)\<close> and \<open>enqueue(nullptr)\<close> the queue holds
  buffer 1 followed by a null marker; \<open>dequeueAll\<close> then submits nothing, where the
  specification has it submit buffer 1.
\<close>

theorem dequeueAll_trailing_null_counterexample:
  "run 4 [OpEnqueue (Some frame8), OpEnqueue None] painter0 = Inr trailing_null_state \<and>
   m_queue trailing_null_state = [Some 1, None] \<and>
   posted_frames (new_events trailing_null_state (dequeueAll trailing_null_state)) = [] \<and>
   spec_drainAll_submits (m_queue trailing_null_state) = [1]"
  by (simp add: trailing_null_state_def example_defs apply_op_def queue_defs
      spec_drainAll_submits_def)

text \<open>
  C1 (amended): for every state of the pending queue, \<open>dequeueAll\<close> empties the queue,
  returns every non-null pending buffer to the free pool in queue order, and submits
  to \<open>postFrame\<close> the last entry of the queue when that entry is a buffer; when the
  queue is empty or ends with a null marker it submits nothing. It never submits more
  than one buffer, however long the backlog.
\<close>

theorem dequeueAll_submits_last_entry:
  "m_queue (dequeueAll p) = [] \<and>
   m_free (dequeueAll p) = m_free p @ buffers_of (m_queue p) \<and>
   new_events p (dequeueAll p) =
     (case (if m_queue p = [] then None else last (m_queue p)) of
        None \<Rightarrow> []
      | Some b \<Rightarrow> [EvPostFrame b (m_free p @ buffers_of (m_queue p)) []])"
  by (simp add: dequeueAll_def dequeueAll_loop_eq postFrame_def emit_def new_events_def
      split: option.split)

theorem dequeueAll_submits_last_entry_witness:
  "m_queue two_frame_state = [Some 1, Some 0] \<and>
   m_queue (dequeueAll two_frame_state) = [] \<and>
   m_free (dequeueAll two_frame_state) = [1, 0] \<and>
   new_events two_frame_state (dequeueAll two_frame_state) = [EvPostFrame 0 [1, 0] []]"
  using dequeueAll_submits_last_entry [of two_frame_state]
  by (simp add: two_frame_fields)

text \<open>
  C2, as stated, fails for \<open>dequeueAll\<close>. With one frame queued, \<open>dequeueAll\<close> appends
  buffer 1 to the free pool inside its loop and calls \<open>postFrame\<close> on it afterwards:
  at that call the buffer is in the free pool.
\<close>

theorem dequeueAll_submits_pooled_buffer_counterexample:
  "run 4 [OpSetContext (Some ctl0), OpEnqueue (Some frame8)]
      (PainterGL_new True False False (\<lambda>a i. 0)) = Inr one_frame_state \<and>
   new_events one_frame_state (dequeueAll one_frame_state) = [EvPostFrame 1 [0, 1] []] \<and>
   \<not> spec_single_owner (EvPostFrame 1 [0, 1] [])"
  by (simp add: run_one_frame new_events_dequeueAll one_frame_fields del: run.simps)

text \<open>
  C2 (amended): in every state reached from the constructor, a buffer that \<open>dequeue\<close>
  hands to \<open>postFrame\<close> is at that moment neither in the free pool nor in the pending
  queue; a buffer that \<open>dequeueAll\<close> hands to \<open>postFrame\<close> is no longer in the pending
  queue (which is empty) and has already been returned to the free pool, where it is
  the last element and occurs once; and the buffer that \<open>enqueue\<close> copies into is at
  that moment neither in the free pool nor in the pending queue.
\<close>

theorem submitted_and_written_buffers:
  "run bpp ops (PainterGL_new v s l m0) = Inr p \<Longrightarrow>
     list_all spec_single_owner (new_events p (dequeue p)) \<and>
     (\<forall>b fr q. EvPostFrame b fr q \<in> set (new_events p (dequeueAll p)) \<longrightarrow>
        q = [] \<and> fr \<noteq> [] \<and> last fr = b \<and> b \<notin> set (butlast fr)) \<and>
     (\<forall>backing p'. enqueue bpp backing p = Inr p' \<longrightarrow>
        list_all spec_single_owner (new_events p p'))"
proof -
  assume r: "run bpp ops (PainterGL_new v s l m0) = Inr p"
  from pool_inv_new r have "pool_inv p" by (rule pool_inv_run)
  then have d: "distinct (m_free p @ buffers_of (m_queue p))" by (rule pool_inv_distinct)
  from dequeue_event_owner [OF d] dequeueAll_event_owner [OF d] enqueue_event_owner [OF d]
  show ?thesis by blast
qed

theorem submitted_and_written_buffers_witness:
  "run 4 [OpSetContext (Some ctl0), OpEnqueue (Some frame8)]
      (PainterGL_new True False False (\<lambda>a i. 0)) = Inr one_frame_state \<and>
   new_events one_frame_state (dequeue one_frame_state) = [EvPostFrame 1 [0] []] \<and>
   list_all spec_single_owner (new_events one_frame_state (dequeue one_frame_state)) \<and>
   EvPostFrame 1 [0, 1] [] \<in> set (new_events one_frame_state (dequeueAll one_frame_state)) \<and>
   last [0, 1 :: addr] = 1 \<and> (1 :: addr) \<notin> set (butlast [0, 1]) \<and>
   enqueue 4 (Some frame8) one_frame_state = Inr two_frame_state \<and>
   new_events one_frame_state two_frame_state = [EvMemcpy 0 8 [] [Some 1]] \<and>
   list_all spec_single_owner (new_events one_frame_state two_frame_state)"
proof -
  note t = submitted_and_written_buffers [OF run_one_frame]
  have a: "EvPostFrame 1 [0, 1] [] \<in> set (new_events one_frame_state (dequeueAll one_frame_state))"
    by (simp add: new_events_dequeueAll one_frame_fields)
  from t have b: "last [0, 1 :: addr] = 1 \<and> (1 :: addr) \<notin> set (butlast [0, 1])"
    using a by blast
  from t enqueue_two_frames
  have c: "list_all spec_single_owner (new_events one_frame_state two_frame_state)" by blast
  from t have e: "list_all spec_single_owner (new_events one_frame_state (dequeue one_frame_state))"
    by blast
  have f: "new_events one_frame_state (dequeue one_frame_state) = [EvPostFrame 1 [0] []]"
    by (simp add: new_events_dequeue one_frame_fields)
  have g: "new_events one_frame_state two_frame_state = [EvMemcpy 0 8 [] [Some 1]]"
    by (simp add: new_events_def two_frame_fields)
  from a b c e f g run_one_frame enqueue_two_frames show ?thesis by blast
qed




text \<open>
  C4, as stated, does not hold of every call with a non-null source. After
  \<open>enqueue(frame)\<close>, \<open>enqueue(nullptr)\<close> and two more frames the free pool is empty and
  the front of the queue is the null marker: the next frame finds no buffer, nothing
  is copied and nothing is appended. A call on a painter that has no controller
  bound does not reach the copy either.
\<close>

theorem enqueue_without_destination_counterexample:
  "run 4 [OpEnqueue (Some frame8), OpEnqueue None, OpEnqueue (Some frame8),
          OpEnqueue (Some frame8)] painter0 = Inr null_front_state \<and>
   m_free null_front_state = [] \<and>
   m_queue null_front_state = [None, Some 0, Some 1] \<and>
   enqueue 4 (Some frame8) null_front_state = Inl NullDestination \<and>
   enqueue 4 (Some frame8) (PainterGL_new True False False (\<lambda>a i. 0)) = Inl NullContext"
  by (simp add: null_front_state_def example_defs apply_op_def queue_defs)

text \<open>
  C4 (amended): \<open>enqueue\<close> with a null source appends a null marker and does nothing
  else: no buffer is taken, nothing is copied. \<open>enqueue\<close> with a non-null source, on a
  painter with a controller bound and for a frame that fits (dimensions not negative,
  a positive number of bytes per pixel, a byte count within the source and within a
  buffer), returns in both of these cases. When the free pool is non-empty the
  destination is the last buffer of the free pool, which is taken out of the pool.
  When the free pool is empty and the front (oldest) entry of the pending queue is a
  buffer, the destination is that buffer, which is taken out of the queue. In both
  cases the first \<open>n\<close> bytes of the destination are then the source's, its other bytes
  and the other buffers are as before, one copy has been made, the destination is
  the new last entry of the queue and nothing else has changed. What a call does
  when the pool is empty and the front entry is a null marker is left out here.
\<close>

theorem enqueue_destination_copy_append:
  "enqueue bpp None p = Inr (p\<lparr>m_queue := m_queue p @ [None]\<rparr>) \<and>
   (m_context p = Some c \<and> 0 \<le> fst (screenDimensions c) \<and> 0 \<le> snd (screenDimensions c) \<and>
    0 < bpp \<and> n = nat (fst (screenDimensions c) * snd (screenDimensions c) * bpp) \<and>
    n \<le> length src \<and> n \<le> buffer_bytes \<and>
    (m_free p \<noteq> [] \<and> d = last (m_free p) \<and> fr = butlast (m_free p) \<and> q = m_queue p \<or>
     m_free p = [] \<and> m_queue p = Some d # q \<and> fr = []) \<longrightarrow>
    (\<exists>p'. enqueue bpp (Some src) p = Inr p' \<and>
       p'\<lparr>mem := mem p\<rparr> =
         p\<lparr>m_free := fr, m_queue := q @ [Some d],
           trace := trace p @ [EvMemcpy d n fr q]\<rparr> \<and>
       (\<forall>i. i < n \<longrightarrow> mem p' d i = src ! i) \<and>
       (\<forall>i. n \<le> i \<longrightarrow> mem p' d i = mem p d i) \<and>
       (\<forall>a. a \<noteq> d \<longrightarrow> mem p' a = mem p a)))"
proof (intro conjI impI)
  show "enqueue bpp None p = Inr (p\<lparr>m_queue := m_queue p @ [None]\<rparr>)"
    by (simp add: enqueue_def)
next
  assume h: "m_context p = Some c \<and> 0 \<le> fst (screenDimensions c) \<and>
    0 \<le> snd (screenDimensions c) \<and> 0 < bpp \<and>
    n = nat (fst (screenDimensions c) * snd (screenDimensions c) * bpp) \<and>
    n \<le> length src \<and> n \<le> buffer_bytes \<and>
    (m_free p \<noteq> [] \<and> d = last (m_free p) \<and> fr = butlast (m_free p) \<and> q = m_queue p \<or>
     m_free p = [] \<and> m_queue p = Some d # q \<and> fr = [])"
  define k where "k = fst (screenDimensions c) * snd (screenDimensions c) * bpp"
  from h have k0: "0 \<le> k" unfolding k_def by simp
  from h have n: "n = nat k" unfolding k_def by simp
  from h n have le: "nat k \<le> length src" "nat k \<le> buffer_bytes" by auto
  from k0 le have fit: "\<not> k < 0" "\<not> int (length src) < k" "\<not> int buffer_bytes < k"
    by linarith+
  define p1 where "p1 = p\<lparr>m_free := fr, m_queue := q\<rparr>"
  from h have tb: "take_buffer p = Inr (Some d, p1)"
    unfolding p1_def by (auto simp: take_buffer_def)
  define p' where
    "p' = p1\<lparr>mem := (mem p)(d := copy_bytes src n (mem p d)),
             trace := trace p @ [EvMemcpy d n fr q], m_queue := q @ [Some d]\<rparr>"
  have e: "enqueue bpp (Some src) p = Inr p'"
    using h fit
    by (simp add: enqueue_def tb then_do_def memcpy_def emit_def p'_def p1_def k_def [symmetric] n)
  have a: "p'\<lparr>mem := mem p\<rparr> =
      p\<lparr>m_free := fr, m_queue := q @ [Some d], trace := trace p @ [EvMemcpy d n fr q]\<rparr>"
    by (simp add: p'_def p1_def)
  have b: "\<forall>i. i < n \<longrightarrow> mem p' d i = src ! i"
    by (simp add: p'_def p1_def copy_bytes_def)
  have c: "\<forall>i. n \<le> i \<longrightarrow> mem p' d i = mem p d i"
    by (simp add: p'_def p1_def copy_bytes_def)
  have d: "\<forall>a. a \<noteq> d \<longrightarrow> mem p' a = mem p a"
    by (simp add: p'_def p1_def)
  from e a b c d
  show "\<exists>p'. enqueue bpp (Some src) p = Inr p' \<and>
       p'\<lparr>mem := mem p\<rparr> =
         p\<lparr>m_free := fr, m_queue := q @ [Some d],
           trace := trace p @ [EvMemcpy d n fr q]\<rparr> \<and>
       (\<forall>i. i < n \<longrightarrow> mem p' d i = src ! i) \<and>
       (\<forall>i. n \<le> i \<longrightarrow> mem p' d i = mem p d i) \<and>
       (\<forall>a. a \<noteq> d \<longrightarrow> mem p' a = mem p a)"
    by blast
qed

theorem enqueue_destination_copy_append_witness:
  "m_context one_frame_state = Some ctl0 \<and> m_free one_frame_state = [0] \<and>
   m_queue one_frame_state = [Some 1] \<and>
   (\<exists>p'. enqueue 4 (Some frame8) one_frame_state = Inr p' \<and>
         m_free p' = [] \<and> m_queue p' = [Some 1, Some 0] \<and>
         mem p' 0 3 = 4 \<and> mem p' 1 = mem one_frame_state 1) \<and>
   m_context two_frame_state = Some ctl0 \<and> m_free two_frame_state = [] \<and>
   m_queue two_frame_state = [Some 1, Some 0] \<and>
   (\<exists>p'. enqueue 4 (Some frame8) two_frame_state = Inr p' \<and>
         m_free p' = [] \<and> m_queue p' = [Some 0, Some 1] \<and>
         mem p' 1 7 = 8 \<and> mem p' 0 = mem two_frame_state 0)"
proof -
  have s: "screenDimensions ctl0 = (2, 1)" "length frame8 = 8" "frame8 ! 3 = 4" "frame8 ! 7 = 8"
    "(8 :: nat) \<le> buffer_bytes"
    by (simp_all add: ctl0_def frame8_def buffer_bytes_def)
  have c2: "m_context two_frame_state = Some ctl0"
    by (simp add: two_frame_state_def one_frame_fields queue_defs ctl0_def frame8_def)
  from enqueue_destination_copy_append
    [of 4 one_frame_state ctl0 8 frame8 0 "[]" "[Some 1]"]
  obtain p' where e: "enqueue 4 (Some frame8) one_frame_state = Inr p'"
    and st: "p'\<lparr>mem := mem one_frame_state\<rparr> =
      one_frame_state\<lparr>m_free := [], m_queue := [Some 1] @ [Some 0],
        trace := trace one_frame_state @ [EvMemcpy 0 8 [] [Some 1]]\<rparr>"
    and by1: "\<forall>i. i < 8 \<longrightarrow> mem p' 0 i = frame8 ! i"
    and ot: "\<forall>a. a \<noteq> 0 \<longrightarrow> mem p' a = mem one_frame_state a"
    by (auto simp: one_frame_fields s)
  from arg_cong [OF st, of m_free] arg_cong [OF st, of m_queue]
  have f1: "m_free p' = []" "m_queue p' = [Some 1, Some 0]" by simp_all
  from by1 ot have m1: "mem p' 0 3 = 4" "mem p' 1 = mem one_frame_state 1"
    by (simp_all add: s)
  from enqueue_destination_copy_append
    [of 4 two_frame_state ctl0 8 frame8 1 "[]" "[Some 0]"]
  obtain p'' where e2: "enqueue 4 (Some frame8) two_frame_state = Inr p''"
    and st2: "p''\<lparr>mem := mem two_frame_state\<rparr> =
      two_frame_state\<lparr>m_free := [], m_queue := [Some 0] @ [Some 1],
        trace := trace two_frame_state @ [EvMemcpy 1 8 [] [Some 0]]\<rparr>"
    and by2: "\<forall>i. i < 8 \<longrightarrow> mem p'' 1 i = frame8 ! i"
    and ot2: "\<forall>a. a \<noteq> 1 \<longrightarrow> mem p'' a = mem two_frame_state a"
    by (auto simp: two_frame_fields c2 s)
  from arg_cong [OF st2, of m_free] arg_cong [OF st2, of m_queue]
  have f2: "m_free p'' = []" "m_queue p'' = [Some 0, Some 1]" by simp_all
  from by2 ot2 have m2: "mem p'' 1 7 = 8" "mem p'' 0 = mem two_frame_state 0"
    by (simp_all add: s)
  from e f1 m1 e2 f2 m2 c2 show ?thesis
    by (auto simp: one_frame_fields two_frame_fields)
qed

text \<open>
  C5: \<open>enqueue\<close> with a null source returns the state with a null marker appended to
  the queue and nothing else changed: no buffer is allocated or taken, no byte is
  copied, no call is made. After as many \<open>dequeue\<close> calls as there were entries before
  it, the marker is the only entry left; and \<open>dequeue\<close> on a queue whose front is a
  null marker only removes the marker: no \<open>postFrame\<close> call is made and the free pool
  is as before.
\<close>

theorem enqueue_null_is_silent_marker:
  "enqueue bpp None p = Inr (p\<lparr>m_queue := m_queue p @ [None]\<rparr>) \<and>
   m_queue ((dequeue ^^ length (m_queue p)) (p\<lparr>m_queue := m_queue p @ [None]\<rparr>)) = [None] \<and>
   dequeue (p\<lparr>m_queue := None # q\<rparr>) = p\<lparr>m_queue := q\<rparr>"
  by (simp add: enqueue_def m_queue_dequeue_funpow dequeue_null_front)

theorem enqueue_null_is_silent_marker_witness:
  "enqueue 4 None one_frame_state = Inr (one_frame_state\<lparr>m_queue := [Some 1, None]\<rparr>) \<and>
   m_queue (dequeue (one_frame_state\<lparr>m_queue := [Some 1, None]\<rparr>)) = [None] \<and>
   dequeue (one_frame_state\<lparr>m_queue := [None]\<rparr>) = one_frame_state\<lparr>m_queue := []\<rparr>"
  using enqueue_null_is_silent_marker [of 4 one_frame_state "[]"]
  by (simp add: one_frame_fields)

text \<open>
  C6, as stated, fails when the GL context is not valid: \<open>swap\<close> then returns at
  once. Here a frame has been composed (\<open>m_frameReady\<close>), the timer is running and
  the queue is empty; at expiry the frame is not presented, the flag stays set and
  the timer is not rearmed.
\<close>

theorem swap_invalid_context_counterexample:
  "m_frameReady invalid_gl_state \<and> swapTimer_active invalid_gl_state \<and>
   m_queue invalid_gl_state = [] \<and> \<not> gl_valid invalid_gl_state \<and>
   swapTimer_timeout invalid_gl_state = Inr (invalid_gl_state\<lparr>swapTimer_active := False\<rparr>)"
  by (simp add: invalid_gl_state_def example_defs painter_defs)

text \<open>
  C6 (amended): on every expiry of the pacing timer while the GL context is valid
  (and a controller is bound if a handshake is held): a composed frame, if one is
  pending, is presented to the display surface and \<open>m_frameReady\<close> is cleared; a
  handshake still held is released and \<open>m_needsUnlock\<close> is cleared; then, if the
  pending queue is non-empty, a \<open>draw\<close> is queued and the timer is left stopped, and
  otherwise the timer is rearmed. When the GL context is not valid, \<open>swap\<close> returns at
  once and does none of this.
\<close>

theorem swap_on_timer_expiry:
  "swapTimer_active p \<Longrightarrow>
   (\<not> gl_valid p \<longrightarrow> swapTimer_timeout p = Inr (p\<lparr>swapTimer_active := False\<rparr>)) \<and>
   (gl_valid p \<and> (m_needsUnlock p \<longrightarrow> m_context p \<noteq> None) \<longrightarrow>
     (\<exists>p'. swapTimer_timeout p = Inr p' \<and>
        \<not> m_frameReady p' \<and> \<not> m_needsUnlock p' \<and>
        new_events p p' =
          (if m_frameReady p then [EvSwapBuffers, EvMakeCurrent (painter_thread p)] else []) @
          (if m_needsUnlock p then [EvWaitFrameEnd] else []) \<and>
        (if m_queue p \<noteq> [] then posted p' = posted p @ [TDraw] \<and> \<not> swapTimer_active p'
         else posted p' = posted p \<and> swapTimer_active p') \<and>
        m_queue p' = m_queue p \<and> m_free p' = m_free p))"
  by (auto simp: swapTimer_timeout_def swap_def release_handshake_def then_do_def Let_def
      makeCurrent_def emit_def post_def new_events_def)

theorem swap_on_timer_expiry_witness:
  "swapTimer_active ready_state \<and> gl_valid ready_state \<and> m_frameReady ready_state \<and>
   \<not> m_needsUnlock ready_state \<and>
   (\<exists>p'. swapTimer_timeout ready_state = Inr p' \<and> \<not> m_frameReady p' \<and>
         new_events ready_state p' = [EvSwapBuffers, EvMakeCurrent MainThread] \<and>
         swapTimer_active p' \<and> posted p' = []) \<and>
   swapTimer_timeout invalid_gl_state = Inr (invalid_gl_state\<lparr>swapTimer_active := False\<rparr>)"
proof -
  have f: "swapTimer_active ready_state" "gl_valid ready_state" "m_frameReady ready_state"
    "\<not> m_needsUnlock ready_state" "m_queue ready_state = []" "posted ready_state = []"
    "painter_thread ready_state = MainThread"
    by (simp_all add: ready_state_def example_defs painter_defs)
  have g: "swapTimer_active invalid_gl_state" "\<not> gl_valid invalid_gl_state"
    by (simp_all add: invalid_gl_state_def example_defs painter_defs)
  from swap_on_timer_expiry [OF f(1)] swap_on_timer_expiry [OF g(1)] f g
  show ?thesis by auto
qed

text \<open>
  C7, as stated, fails: a second \<open>PainterGL::stop\<close> is not a no-op. \<open>stop\<close> has no
  guard of its own, so the second call again asks the backend to clear and to swap,
  resets the proxy and releases the context.
\<close>

theorem stop_again_counterexample:
  "stop painter0 = Inr stopped_fresh \<and>
   stop stopped_fresh =
     Inr (stopped_fresh\<lparr>trace := trace stopped_fresh @
            [EvClear, EvBackendSwap, EvProxyReset, EvDoneCurrent]\<rparr>) \<and>
   stop stopped_fresh \<noteq> Inr stopped_fresh"
proof -
  have a: "stop painter0 = Inr stopped_fresh"
    by (simp add: stopped_fresh_def example_defs painter_defs queue_defs)
  have b: "stop stopped_fresh =
     Inr (stopped_fresh\<lparr>trace := trace stopped_fresh @
            [EvClear, EvBackendSwap, EvProxyReset, EvDoneCurrent]\<rparr>)"
    using stop_result [OF a] by (rule stop_when_stopped)
  have "stop stopped_fresh \<noteq> Inr stopped_fresh"
  proof
    assume "stop stopped_fresh = Inr stopped_fresh"
    with b have "stopped_fresh\<lparr>trace := trace stopped_fresh @
            [EvClear, EvBackendSwap, EvProxyReset, EvDoneCurrent]\<rparr> = stopped_fresh"
      by simp
    from arg_cong [OF this, of trace] show False by simp
  qed
  with a b show ?thesis by simp
qed

text \<open>
  C7 (amended): after one completed \<open>PainterGL::stop\<close> a second one changes no member
  of the painter: the flags, the queue, the free pool, the timer, the backend
  settings, the controller reference and the thread and context ownership are as the
  first call left them. It is not a no-op: it repeats the requests \<open>clear\<close> and \<open>swap\<close>
  to the backend, the proxy reset and \<open>doneCurrent\<close>; it submits, draws and presents
  nothing. After one completed \<open>DisplayGL::stopDrawing\<close> a second one is a no-op: it
  returns the same state and makes no call.
\<close>

theorem stop_twice:
  "(stop p = Inr p1 \<longrightarrow>
      stop p1 =
        Inr (p1\<lparr>trace := trace p1 @ [EvClear, EvBackendSwap, EvProxyReset, EvDoneCurrent]\<rparr>)) \<and>
   (stopDrawing d = Inr d1 \<longrightarrow> stopDrawing d1 = Inr d1)"
proof (intro conjI impI)
  assume "stop p = Inr p1"
  from stop_result [OF this] show
    "stop p1 =
       Inr (p1\<lparr>trace := trace p1 @ [EvClear, EvBackendSwap, EvProxyReset, EvDoneCurrent]\<rparr>)"
    by (rule stop_when_stopped)
next
  assume "stopDrawing d = Inr d1"
  then have "\<not> m_drawThread d1" and "d_context d1 = None"
    by (auto simp: stopDrawing_def then_do_def Let_def split: if_splits sum.splits)
  then show "stopDrawing d1 = Inr d1"
    by (simp add: stopDrawing_def then_do_def)
qed

theorem stop_twice_witness:
  "stop paused_state = Inr stopped_state \<and>
   stop stopped_state =
     Inr (stopped_state\<lparr>trace := trace stopped_state @
            [EvClear, EvBackendSwap, EvProxyReset, EvDoneCurrent]\<rparr>) \<and>
   m_free stopped_state = [0, 1] \<and>
   stopDrawing running_display = Inr stopped_display \<and>
   stopDrawing stopped_display = Inr stopped_display"
proof -
  have a: "stop paused_state = Inr stopped_state"
    by (simp add: stopped_state_def paused_state_def example_defs painter_defs queue_defs)
  have "\<not> isl (stopDrawing running_display)" by code_simp
  then have b: "stopDrawing running_display = Inr stopped_display"
    by (simp add: stopped_display_def)
  have c: "m_free stopped_state = [0, 1]"
    by (simp add: stopped_state_def paused_state_def example_defs painter_defs queue_defs)
  from stop_twice [of paused_state stopped_state running_display stopped_display] a b c
  show ?thesis by simp
qed

text \<open>
  C8, as stated, fails at the submission of \<open>dequeueAll\<close>. With two frames queued,
  \<open>dequeueAll\<close> returns both buffers to the free pool and then hands buffer 0 to the
  backend: at that moment buffer 0 is in the free pool and in flight at once.
\<close>

theorem dequeueAll_two_holders_counterexample:
  "run 4 [OpSetContext (Some ctl0), OpEnqueue (Some frame8), OpEnqueue (Some frame8)]
      (PainterGL_new True False False (\<lambda>a i. 0)) = Inr two_frame_state \<and>
   trace (dequeueAll two_frame_state) = trace two_frame_state @ [EvPostFrame 0 [1, 0] []] \<and>
   holders_at (EvPostFrame 0 [1, 0] []) = Some [1, 0, 0] \<and>
   \<not> spec_exactly_one_holder (EvPostFrame 0 [1, 0] [])"
proof -
  have r: "run 4 [OpSetContext (Some ctl0), OpEnqueue (Some frame8), OpEnqueue (Some frame8)]
      (PainterGL_new True False False (\<lambda>a i. 0)) = Inr two_frame_state"
    by (simp add: two_frame_state_def one_frame_state_def example_defs apply_op_def queue_defs)
  have t: "trace (dequeueAll two_frame_state) =
      trace two_frame_state @ [EvPostFrame 0 [1, 0] []]"
    by (simp add: dequeueAll_def two_frame_fields postFrame_def emit_def)
  have n: "\<not> spec_exactly_one_holder (EvPostFrame 0 [1, 0] [])"
    by (simp add: spec_exactly_one_holder_def)
  from r t n show ?thesis by simp
qed

text \<open>
  C8 (amended): for every sequence of calls on the painter that returns (frame
  enqueues, \<open>dequeue\<close>, \<open>dequeueAll\<close>, \<open>draw\<close>, timer expiry, \<open>stop\<close> and the others),
  started from the constructor: no buffer has been allocated beyond the two of the
  constructor; whenever a call has returned, each of the two is held exactly once by
  the free pool or the pending queue; at every copy, and at every submission made by
  \<open>dequeue\<close>, the buffer concerned is in flight and the free pool and the queue hold
  the other buffer once; at the submission made by \<open>dequeueAll\<close> the queue is empty
  and the free pool already holds both buffers, the submitted one last. At all these
  moments the buffers held are the two of the constructor, so the number of live
  buffers is two, within the bound of the pool size plus one.
\<close>

theorem pool_is_fixed:
  "run bpp ops (PainterGL_new v s l m0) = Inr p \<Longrightarrow>
     allocated p = 2 \<and> mset (m_free p @ buffers_of (m_queue p)) = {#0, 1#} \<and>
     (\<forall>e \<in> set (trace p). event_ok e \<and>
        (\<forall>hs. holders_at e = Some hs \<longrightarrow> set hs = {0, 1}))"
proof -
  assume "run bpp ops (PainterGL_new v s l m0) = Inr p"
  with pool_inv_new have inv: "pool_inv p" by (rule pool_inv_run)
  have "set hs = {0, 1}" if "event_ok e" "holders_at e = Some hs" for e hs
  proof (cases e)
    case (EvMemcpy d n fr q)
    with that have "mset hs = {#0, 1#}" by auto
    from arg_cong [OF this, of set_mset] show ?thesis by auto
  next
    case (EvPostFrame b fr q)
    with that consider "mset hs = {#0, 1#}"
      | "hs = fr @ [b]" "b \<in> set fr" "mset fr = {#0, 1#}"
      by (auto simp: last_in_set)
    then show ?thesis
    proof cases
      case 1
      from arg_cong [OF this, of set_mset] show ?thesis by auto
    next
      case 2
      from arg_cong [OF 2(3), of set_mset] have "set fr = {0, 1}" by auto
      with 2 show ?thesis by auto
    qed
  qed (use that in simp_all)
  with inv show ?thesis
    by (auto simp: pool_inv_def live_buffers_def list_all_iff)
qed

theorem pool_is_fixed_witness:
  "run 4 [OpSetContext (Some ctl0), OpEnqueue (Some frame8), OpEnqueue (Some frame8),
          OpEnqueue (Some frame8), OpDequeue]
      (PainterGL_new True False False (\<lambda>a i. 0)) = Inr recycled_state \<and>
   m_free recycled_state = [0] \<and> m_queue recycled_state = [Some 1] \<and>
   allocated recycled_state = 2 \<and>
   EvMemcpy 1 8 [] [Some 0] \<in> set (trace recycled_state) \<and>
   event_ok (EvMemcpy 1 8 [] [Some 0]) \<and>
   holders_at (EvMemcpy 1 8 [] [Some 0]) = Some [0, 1] \<and>
   set [0, 1 :: addr] = {0, 1}"
proof -
  have r: "run 4 [OpSetContext (Some ctl0), OpEnqueue (Some frame8), OpEnqueue (Some frame8),
          OpEnqueue (Some frame8), OpDequeue]
      (PainterGL_new True False False (\<lambda>a i. 0)) = Inr recycled_state"
    by (simp add: recycled_state_def example_defs apply_op_def queue_defs)
  have f: "m_free recycled_state = [0]" "m_queue recycled_state = [Some 1]"
    "EvMemcpy 1 8 [] [Some 0] \<in> set (trace recycled_state)"
    by (simp_all add: recycled_state_def example_defs apply_op_def queue_defs)
  have l: "holders_at (EvMemcpy 1 8 [] [Some 0]) = Some [0, 1]"
    by simp
  from pool_is_fixed [OF r] f l
  have "allocated recycled_state = 2 \<and> event_ok (EvMemcpy 1 8 [] [Some 0]) \<and>
      set [0, 1 :: addr] = {0, 1}"
    by blast
  with r f l show ?thesis by blast
qed

text \<open>
  C9 does not hold of the code. \<open>enqueue\<close> takes the front of the pending queue as
  the destination when the free pool is empty, whatever that entry is. After
  \<open>enqueue(nullptr)\<close> and two frames the pool is empty and the front of the queue is the
  null marker; the next frame is copied to \<open>nullptr\<close>.
\<close>

theorem enqueue_null_front_fault:
  "run 4 [OpEnqueue None, OpEnqueue (Some frame8), OpEnqueue (Some frame8),
          OpEnqueue (Some frame8)] painter0 = Inl NullDestination"
  by (simp add: example_defs apply_op_def queue_defs)

text \<open>
  C10: \<open>startDrawing\<close> while a draw thread exists returns the state unchanged: no
  thread is created, the painter (its controller reference and its queue included)
  and \<open>m_isDrawing\<close> are as before.
\<close>

theorem startDrawing_while_running:
  "m_drawThread d \<Longrightarrow> startDrawing controller d = Inr d"
  by (simp add: startDrawing_def)

theorem startDrawing_while_running_witness:
  "\<not> isl (startDrawing (Some ctl0) display0) \<and> m_drawThread running_display \<and>
   m_started (m_painter running_display) \<and> \<not> m_drawThread display0 \<and>
   startDrawing None running_display = Inr running_display"
proof -
  have a: "\<not> isl (startDrawing (Some ctl0) display0)" by code_simp
  have h: "m_drawThread running_display" by code_simp
  have s: "m_started (m_painter running_display)" by code_simp
  have n: "\<not> m_drawThread display0" by code_simp
  from startDrawing_while_running [OF h, of None] a h s n show ?thesis by simp
qed

end
